theory Spec2Isabelle
  imports Main "HOL-Library.Word"
begin

section \<open>Strings\<close>

text \<open>
  A Python \<^verbatim>\<open>str\<close> is a sequence of Unicode code points, so it is modelled as a list of
  natural numbers (one per code point), not as a list of bytes: the fixed marker of
  \<^verbatim>\<open>slugify\<close> and the name of the challenges folder start with a code point outside ASCII,
  and the regular expressions of the program work on code points.
  \<open>u\<close> reads an ASCII literal as such a string.
\<close>

type_synonym ustr = "nat list"

definition u :: "string \<Rightarrow> ustr" where
  "u s = map of_char s"

text \<open>
  White space as \<^verbatim>\<open>\s\<close> of module \<^verbatim>\<open>re\<close> sees it in a \<^verbatim>\<open>str\<close> pattern: the code points
  for which \<^verbatim>\<open>str.isspace\<close> holds (TAB..CR, FS..US, SPACE, NEL, NBSP, OGHAM SPACE MARK,
  EN QUAD..HAIR SPACE, LINE and PARAGRAPH SEPARATOR, NARROW NBSP, MEDIUM MATHEMATICAL SPACE,
  IDEOGRAPHIC SPACE).
\<close>

definition is_space :: "nat \<Rightarrow> bool" where
  "is_space c =
     ((9 \<le> c \<and> c \<le> 13) \<or> (28 \<le> c \<and> c \<le> 32) \<or> c = 133 \<or> c = 160 \<or> c = 5760
      \<or> (8192 \<le> c \<and> c \<le> 8202) \<or> c = 8232 \<or> c = 8233 \<or> c = 8239 \<or> c = 8287
      \<or> c = 12288)"

text \<open>The character class \<^verbatim>\<open>[a-z0-9-]\<close>.\<close>

definition is_slug_char :: "nat \<Rightarrow> bool" where
  "is_slug_char c = ((97 \<le> c \<and> c \<le> 122) \<or> (48 \<le> c \<and> c \<le> 57) \<or> c = 45)"

text \<open>
  \<^verbatim>\<open>str.lower\<close>, one code point at a time. The ASCII capitals go to their small letters;
  LATIN CAPITAL LETTER I WITH DOT ABOVE (U+0130) goes to \<^verbatim>\<open>i\<close> followed by COMBINING DOT
  ABOVE, and KELVIN SIGN (U+212A) to \<^verbatim>\<open>k\<close>: these are the code points whose lower case
  contains an ASCII character. Python maps every other cased code point to code points
  outside ASCII that are not white space; they are kept as they are here, which cannot be
  told apart in \<^verbatim>\<open>slugify\<close>, the only caller: such code points are deleted by its character
  filter either way.
\<close>

definition lower_cp :: "nat \<Rightarrow> ustr" where
  "lower_cp c =
     (if 65 \<le> c \<and> c \<le> 90 then [c + 32]
      else if c = 304 then [105, 775]
      else if c = 8490 then [107]
      else [c])"

definition str_lower :: "ustr \<Rightarrow> ustr" where
  "str_lower s = concat (map lower_cp s)"

text \<open>
  \<^verbatim>\<open>re.sub(r"[C]+", repl, s)\<close> for a character class \<open>C\<close>: the scan goes from left to
  right; where the class matches, the match is the longest run of class members (the
  \<^verbatim>\<open>+\<close> is greedy), it is replaced by \<open>repl\<close> and the scan goes on behind the run.
\<close>

function re_sub_plus :: "(nat \<Rightarrow> bool) \<Rightarrow> ustr \<Rightarrow> ustr \<Rightarrow> ustr" where
  "re_sub_plus C repl [] = []"
| "re_sub_plus C repl (c # cs) =
     (if C c then repl @ re_sub_plus C repl (dropWhile C cs)
      else c # re_sub_plus C repl cs)"
  by pat_completeness auto
termination
  by (relation "measure (\<lambda>(C, repl, s). length s)")
     (auto simp: length_dropWhile_le less_Suc_eq_le)

text \<open>\<^verbatim>\<open>re.sub(r"[C]", repl, s)\<close>: every single member of the class is a match.\<close>

fun re_sub_char :: "(nat \<Rightarrow> bool) \<Rightarrow> ustr \<Rightarrow> ustr \<Rightarrow> ustr" where
  "re_sub_char C repl [] = []"
| "re_sub_char C repl (c # cs) =
     (if C c then repl @ re_sub_char C repl cs else c # re_sub_char C repl cs)"

text \<open>\<^verbatim>\<open>s.strip(chars)\<close>: the leading, then the trailing members of \<open>chars\<close> go.\<close>

definition str_strip :: "ustr \<Rightarrow> ustr \<Rightarrow> ustr" where
  "str_strip chars s =
     rev (dropWhile (\<lambda>c. c \<in> set chars) (rev (dropWhile (\<lambda>c. c \<in> set chars) s)))"

section \<open>The slug engine\<close>

text \<open>The fixed marker: WHITE SQUARE BUTTON (U+1F532) and a space.\<close>

definition SLUG_MARKER :: ustr where
  "SLUG_MARKER = [128306, 32]"

text \<open>
  \<^verbatim>\<open>def slugify(text):
    return "<marker>" + re.sub(r"[^a-z0-9-]", "", re.sub(r"[\s]+", "-", text.lower())).strip("-")\<close>
\<close>

definition slugify :: "ustr \<Rightarrow> ustr" where
  "slugify text =
     SLUG_MARKER @
     str_strip (u ''-'')
       (re_sub_char (\<lambda>c. \<not> is_slug_char c) []
          (re_sub_plus is_space (u ''-'') (str_lower text)))"

subsection \<open>The reference transform of the specification\<close>

text \<open>
  The transform as the specification words it, written without the regular expressions:
  lowercase; collapse every white-space run to a single \<^verbatim>\<open>-\<close> (a white-space character
  followed by another one is dropped, the last one of a run becomes the separator); keep
  only the characters of \<^verbatim>\<open>[a-z0-9-]\<close>; trim the separators at both ends; prefix the marker.
\<close>

fun collapse_space_runs :: "ustr \<Rightarrow> ustr" where
  "collapse_space_runs [] = []"
| "collapse_space_runs [c] = [if is_space c then 45 else c]"
| "collapse_space_runs (c # d # cs) =
     (if is_space c \<and> is_space d then collapse_space_runs (d # cs)
      else (if is_space c then 45 else c) # collapse_space_runs (d # cs))"

definition trim_separators :: "ustr \<Rightarrow> ustr" where
  "trim_separators s = dropWhile (\<lambda>c. c = 45) (rev (dropWhile (\<lambda>c. c = 45) (rev s)))"

definition slugify_reference :: "ustr \<Rightarrow> ustr" where
  "slugify_reference name =
     SLUG_MARKER @ trim_separators (filter is_slug_char (collapse_space_runs (str_lower name)))"

section \<open>Paths\<close>

text \<open>The constant of the program: OPEN FILE FOLDER (U+1F4C2), a space and \<^verbatim>\<open>Challenges\<close>.\<close>

definition CHALLENGES_FOLDER :: ustr where
  "CHALLENGES_FOLDER = 128194 # u '' Challenges''"

text \<open>
  \<^verbatim>\<open>os.path.join(path, *p)\<close> of \<^verbatim>\<open>posixpath\<close>: a component that starts with the separator
  replaces what was joined so far; otherwise it is appended, behind a separator unless the
  path so far is empty or ends with one.
\<close>

fun os_path_join :: "ustr \<Rightarrow> ustr list \<Rightarrow> ustr" where
  "os_path_join path [] = path"
| "os_path_join path (b # p) =
     os_path_join
       (if take 1 b = u ''/'' then b
        else if path = [] \<or> last path = 47 then path @ b
        else path @ u ''/'' @ b) p"

declare os_path_join.simps [simp del]

section \<open>Data model\<close>

text \<open>
  A challenge is the JSON object of the API, a Python \<^verbatim>\<open>dict\<close>. The program reads five of
  its keys; each of them may be absent (\<^verbatim>\<open>None\<close> of the option type), and a member that is
  present holds a value of the type the API gives it. \<open>ch_others\<close> says whether the object
  has members besides these five, which is all the program can observe of them (an object
  is false in a Boolean context exactly when it has no member at all).
\<close>

record challenge =
  ch_id :: "int option"
  ch_name :: "ustr option"
  ch_category :: "ustr option"
  ch_description :: "ustr option"
  ch_files :: "ustr list option"
  ch_others :: bool

text \<open>\<^verbatim>\<open>d.get(key, default)\<close>.\<close>

definition dict_get :: "'a option \<Rightarrow> 'a \<Rightarrow> 'a" where
  "dict_get member dflt = (case member of None \<Rightarrow> dflt | Some v \<Rightarrow> v)"

text \<open>\<^verbatim>\<open>bool(d)\<close> of a challenge object.\<close>

definition truthy :: "challenge \<Rightarrow> bool" where
  "truthy d =
     (ch_id d \<noteq> None \<or> ch_name d \<noteq> None \<or> ch_category d \<noteq> None
      \<or> ch_description d \<noteq> None \<or> ch_files d \<noteq> None \<or> ch_others d)"

text \<open>
  What \<^verbatim>\<open>json.loads(response.text)\<close> makes of the body of an API response: the text is
  not JSON (\<^verbatim>\<open>JSONDecodeError\<close>), it is JSON but not an object, or it is an object, with
  or without a \<^verbatim>\<open>data\<close> member.
\<close>

datatype 'a body = Malformed | Not_An_Object | Envelope "'a option"

type_synonym byte = "8 word"

record asset_response =
  content_length :: "nat option"
  content :: "byte list"

text \<open>
  The remote platform and the URL functions of \<^verbatim>\<open>urllib.parse\<close>, which the program takes
  as they are: \<open>urljoin\<close>; \<open>url_file_name\<close> for \<^verbatim>\<open>urlparse(url).path.split("/")[-1]\<close>; the
  body of the challenge list; the body of the detail of the challenge with a given
  identifier; the response to the request of an asset URL. The transport is not modelled:
  every request is answered, and the answers are those given to the credentials of the run.
\<close>

record remote =
  urljoin :: "ustr \<Rightarrow> ustr \<Rightarrow> ustr"
  url_file_name :: "ustr \<Rightarrow> ustr"
  challenges_response :: "challenge list body"
  challenge_response :: "int \<Rightarrow> challenge body"
  asset :: "ustr \<Rightarrow> asset_response"

text \<open>The command line, as \<^verbatim>\<open>parse_arguments\<close> returns it.\<close>

record arguments =
  arg_url :: ustr
  arg_name :: ustr
  arg_session :: ustr
  arg_output :: ustr
  arg_update :: bool
  arg_verbose :: nat

section \<open>Effects and exceptions\<close>

text \<open>
  The program acts on the world by creating directories, opening files for writing,
  writing to them, and reporting on the console; it never reads the file system. A run
  is modelled by the list of these effects in program order, together with its result:
  a value, or the exception that ended it.
\<close>

datatype message =
    Failed_to_retrieve_challenges
  | Failed_to_retrieve_details int
  | Saved_challenge_file ustr
  | Downloaded ustr ustr
  | External_links_found
  | Download_completed

datatype task_description = Processing_Challenge ustr | Downloading_File ustr

datatype effect =
    Makedirs ustr
  | Open_w ustr
  | Open_wb ustr
  | Write_str ustr ustr
  | Write_bytes ustr "byte list"
  | Logger_error message
  | Add_task task_description nat
  | Update_advance nat nat
  | Console_log message
  | Console_print message

datatype py_exception = SystemExit nat | KeyError | AttributeError | TypeError

type_synonym 'a io = "(py_exception + 'a) \<times> effect list"

definition return_io :: "'a \<Rightarrow> 'a io" where
  "return_io x = (Inr x, [])"

definition emit :: "effect list \<Rightarrow> unit io" where
  "emit effects = (Inr (), effects)"

text \<open>Sequencing: an exception ends the run, and the effects made before it stay.\<close>

definition bind_io :: "'a io \<Rightarrow> ('a \<Rightarrow> 'b io) \<Rightarrow> 'b io" where
  "bind_io m f =
     (case m of
        (Inl e, effects) \<Rightarrow> (Inl e, effects)
      | (Inr x, effects) \<Rightarrow> (case f x of (r, effects') \<Rightarrow> (r, effects @ effects')))"

text \<open>
  The exit status of the process: 0 when \<^verbatim>\<open>main\<close> returns, the argument of
  \<^verbatim>\<open>sys.exit\<close>, and 1 when an exception is not caught.
\<close>

definition exit_status :: "py_exception + 'a \<Rightarrow> nat" where
  "exit_status r = (case r of Inr _ \<Rightarrow> 0 | Inl (SystemExit n) \<Rightarrow> n | Inl _ \<Rightarrow> 1)"

subsection \<open>The file system under a list of effects\<close>

datatype file_content = Text ustr | Binary "byte list"

type_synonym filesystem = "ustr \<rightharpoonup> file_content"

text \<open>Opening for writing creates or truncates the file; a write appends to what the
  handle has written so far.\<close>

fun apply_effect :: "effect \<Rightarrow> filesystem \<Rightarrow> filesystem" where
  "apply_effect (Open_w p) fs = fs(p \<mapsto> Text [])"
| "apply_effect (Open_wb p) fs = fs(p \<mapsto> Binary [])"
| "apply_effect (Write_str p s) fs =
     (case fs p of Some (Text t) \<Rightarrow> fs(p \<mapsto> Text (t @ s)) | _ \<Rightarrow> fs)"
| "apply_effect (Write_bytes p b) fs =
     (case fs p of Some (Binary t) \<Rightarrow> fs(p \<mapsto> Binary (t @ b)) | _ \<Rightarrow> fs)"
| "apply_effect _ fs = fs"

definition run_effects :: "effect list \<Rightarrow> filesystem \<Rightarrow> filesystem" where
  "run_effects effects fs = fold apply_effect effects fs"

section \<open>The program\<close>

text \<open>
  \<^verbatim>\<open>def create_directory_structure(output_dir):
    os.makedirs(output_dir, exist_ok=True)
    os.makedirs(os.path.join(output_dir, CHALLENGES_FOLDER), exist_ok=True)\<close>
\<close>

definition create_directory_structure :: "ustr \<Rightarrow> effect list" where
  "create_directory_structure output_dir =
     [Makedirs output_dir, Makedirs (os_path_join output_dir [CHALLENGES_FOLDER])]"

text \<open>
  \<^verbatim>\<open>def fetch_challenges(api_url, headers):
    response = requests.get(f"{api_url}/challenges", headers=headers)
    try:
        return json.loads(response.text).get("data", [])
    except (json.JSONDecodeError, KeyError):
        logger.error("Failed to retrieve challenges")
        sys.exit(1)\<close>
  \<^verbatim>\<open>.get\<close> with a default never raises \<^verbatim>\<open>KeyError\<close>; a JSON value that is not an object
  has no \<^verbatim>\<open>get\<close>, and the \<^verbatim>\<open>AttributeError\<close> is not caught.
\<close>

definition fetch_challenges :: "remote \<Rightarrow> challenge list io" where
  "fetch_challenges r =
     (case challenges_response r of
        Malformed \<Rightarrow> (Inl (SystemExit 1), [Logger_error Failed_to_retrieve_challenges])
      | Not_An_Object \<Rightarrow> (Inl AttributeError, [])
      | Envelope member \<Rightarrow> (Inr (dict_get member []), []))"

text \<open>
  \<^verbatim>\<open>def fetch_challenge_details(api_url, challenge_id, headers):
    response = requests.get(f"{api_url}/challenges/{challenge_id}", headers=headers)
    try:
        return json.loads(response.text)["data"]
    except (json.JSONDecodeError, KeyError):
        logger.error("Failed to retrieve details for challenge ID %s", challenge_id)
        return None\<close>
  Subscripting a JSON value that is not an object with a string raises \<^verbatim>\<open>TypeError\<close>,
  which is not caught.
\<close>

definition fetch_challenge_details :: "remote \<Rightarrow> int \<Rightarrow> challenge option io" where
  "fetch_challenge_details r challenge_id =
     (case challenge_response r challenge_id of
        Malformed \<Rightarrow> (Inr None, [Logger_error (Failed_to_retrieve_details challenge_id)])
      | Not_An_Object \<Rightarrow> (Inl TypeError, [])
      | Envelope None \<Rightarrow> (Inr None, [Logger_error (Failed_to_retrieve_details challenge_id)])
      | Envelope (Some data) \<Rightarrow> (Inr (Some data), []))"

text \<open>
  \<^verbatim>\<open>response.iter_content(chunk_size=n)\<close> on a streamed body that needs no decoding: the
  body in pieces of \<open>n\<close> bytes, the last one with what is left.
\<close>

function iter_content :: "nat \<Rightarrow> byte list \<Rightarrow> byte list list" where
  "iter_content chunk_size bs =
     (if chunk_size = 0 \<or> bs = [] then []
      else take chunk_size bs # iter_content chunk_size (drop chunk_size bs))"
  by pat_completeness auto
termination
  by (relation "measure (\<lambda>(chunk_size, bs). length bs)") auto

declare iter_content.simps [simp del]

text \<open>
  \<^verbatim>\<open>def download_challenge_assets(session, url, destination, progress, file_task_id):
    response = session.get(url, stream=True)
    total_size = int(response.headers.get('content-length', 0))
    with open(destination, "wb") as file:
        for chunk in response.iter_content(chunk_size=1024):
            if chunk:
                file.write(chunk)
                progress.update(file_task_id, advance=len(chunk))
    progress.console.log(f"Downloaded {urlparse(url).path.split('/')[-1]} to {destination}")\<close>
\<close>

definition write_chunk :: "ustr \<Rightarrow> nat \<Rightarrow> byte list \<Rightarrow> effect list" where
  "write_chunk destination file_task_id chunk =
     (if chunk \<noteq> [] then
        [Write_bytes destination chunk, Update_advance file_task_id (length chunk)]
      else [])"

definition download_challenge_assets :: "remote \<Rightarrow> ustr \<Rightarrow> ustr \<Rightarrow> nat \<Rightarrow> effect list" where
  "download_challenge_assets r url destination file_task_id =
     (let response = asset r url;
          total_size = dict_get (content_length response) 0
      in Open_wb destination
         # concat (map (write_chunk destination file_task_id)
                    (iter_content 1024 (content response)))
         @ [Console_log (Downloaded (url_file_name r url) destination)])"

text \<open>
  \<^verbatim>\<open>def save_challenge_metadata(challenge, output_path):
    challenge_name = challenge.get('name', 'Unnamed Challenge')
    challenge_description = challenge.get('description', 'No description provided.')
    file_path = os.path.join(output_path, f"{slugify(challenge_name)}.md")
    with open(file_path, "w") as challenge_file:
        challenge_file.write(f"# {challenge_name}\n\n> {challenge_description}\n\n-------------------\n\n")
    return file_path\<close>
\<close>

definition metadata_text :: "ustr \<Rightarrow> ustr \<Rightarrow> ustr" where
  "metadata_text challenge_name challenge_description =
     u ''# '' @ challenge_name @ [10, 10] @ u ''> '' @ challenge_description @ [10, 10]
     @ u ''-------------------'' @ [10, 10]"

definition save_challenge_metadata :: "challenge \<Rightarrow> ustr \<Rightarrow> ustr \<times> effect list" where
  "save_challenge_metadata challenge output_path =
     (let challenge_name = dict_get (ch_name challenge) (u ''Unnamed Challenge'');
          challenge_description =
            dict_get (ch_description challenge) (u ''No description provided.'');
          file_path = os_path_join output_path [slugify challenge_name @ u ''.md'']
      in (file_path,
          [Open_w file_path,
           Write_str file_path (metadata_text challenge_name challenge_description)]))"

text \<open>
  \<^verbatim>\<open>re.findall(r'(https?://[^\s]+)', text)\<close>. \<open>match_link\<close> is the match of the pattern at
  the start of a string, with the rest behind it: the scheme with \<^verbatim>\<open>://\<close>, then the longest
  run of characters that are not white space, which must not be empty. The scan tries
  every position from the left and goes on behind a match.
\<close>

definition match_link :: "ustr \<Rightarrow> (ustr \<times> ustr) option" where
  "match_link s =
     (let n = (if take 8 s = u ''https://'' then 8 else if take 7 s = u ''http://'' then 7 else 0);
          run = takeWhile (\<lambda>c. \<not> is_space c) (drop n s)
      in if n = 0 \<or> run = [] then None
         else Some (take n s @ run, dropWhile (\<lambda>c. \<not> is_space c) (drop n s)))"

function re_findall_links :: "ustr \<Rightarrow> ustr list" where
  "re_findall_links [] = []"
| "re_findall_links (c # cs) =
     (case match_link (c # cs) of
        Some (m, rest) \<Rightarrow> m # re_findall_links rest
      | None \<Rightarrow> re_findall_links cs)"
  by pat_completeness auto
termination
proof (relation "measure length")
  fix c cs x m rest
  assume "match_link (c # cs) = Some x" and "(m, rest) = x"
  then have "\<exists>k. rest = dropWhile (\<lambda>c. \<not> is_space c) (drop k cs)"
    by (auto simp: match_link_def Let_def split: if_splits)
  then obtain k where rest: "rest = dropWhile (\<lambda>c. \<not> is_space c) (drop k cs)"
    by blast
  have "length rest \<le> length (drop k cs)"
    unfolding rest by (rule length_dropWhile_le)
  then have "length rest < length (c # cs)" by simp
  then show "(rest, c # cs) \<in> measure length" by simp
qed simp_all

text \<open>
  The body of the loop over the attached files of \<^verbatim>\<open>organize_challenges\<close>; the state is
  the identifier the progress display gives to the next task:
  \<^verbatim>\<open>for file_url in challenge_data.get("files", []):
    file_name = urlparse(file_url).path.split("/")[-1]
    download_path = os.path.join(output_dir, CHALLENGES_FOLDER, f"{slugify(challenge_name)}_{file_name}")
    file_task_id = progress.add_task(f"Downloading File: {file_name}", total=0)
    download_challenge_assets(session, urljoin(api_url, file_url), download_path, progress, file_task_id)\<close>
\<close>

fun download_files ::
  "remote \<Rightarrow> ustr \<Rightarrow> ustr \<Rightarrow> ustr \<Rightarrow> ustr list \<Rightarrow> nat \<Rightarrow> nat \<times> effect list" where
  "download_files r output_dir api_url challenge_name [] next_task = (next_task, [])"
| "download_files r output_dir api_url challenge_name (file_url # file_urls) next_task =
     (let file_name = url_file_name r file_url;
          download_path =
            os_path_join output_dir
              [CHALLENGES_FOLDER, slugify challenge_name @ u ''_'' @ file_name];
          file_task_id = next_task;
          effects =
            Add_task (Downloading_File file_name) 0
            # download_challenge_assets r (urljoin r api_url file_url) download_path
                file_task_id;
          (next_task', effects') =
            download_files r output_dir api_url challenge_name file_urls (Suc next_task)
      in (next_task', effects @ effects'))"

text \<open>\<^verbatim>\<open>challenge["id"]\<close>.\<close>

definition subscript_id :: "challenge \<Rightarrow> int io" where
  "subscript_id challenge =
     (case ch_id challenge of None \<Rightarrow> (Inl KeyError, []) | Some i \<Rightarrow> (Inr i, []))"

text \<open>\<^verbatim>\<open>details or challenge\<close>.\<close>

definition or_challenge :: "challenge option \<Rightarrow> challenge \<Rightarrow> challenge" where
  "or_challenge details challenge =
     (case details of
        None \<Rightarrow> challenge
      | Some d \<Rightarrow> if truthy d then d else challenge)"

text \<open>
  The body of the loop over the challenges of \<^verbatim>\<open>organize_challenges\<close>; the state is the
  identifier of the next task and \<^verbatim>\<open>links_to_review\<close>:
  \<^verbatim>\<open>challenge_name = challenge.get("name", "Unnamed Challenge")
task_id = progress.add_task(f"Processing Challenge: {challenge_name}", total=100)
progress.update(task_id, advance=10)
challenge_data = fetch_challenge_details(api_url, challenge["id"], headers) or challenge
category = challenge_data.get("category", "Uncategorized")
challenge_file_path = os.path.join(output_dir, CHALLENGES_FOLDER, f"{category}_{slugify(challenge_name)}.md")
saved_file_path = save_challenge_metadata(challenge_data, os.path.join(output_dir, CHALLENGES_FOLDER))
progress.console.log(f"Saved challenge file: {saved_file_path}")
progress.update(task_id, advance=40)
for file_url in challenge_data.get("files", []): ...
links_to_review.extend(re.findall(r'(https?://[^\s]+)', challenge_data.get("description", "")))
progress.update(task_id, advance=50)\<close>
  \<^verbatim>\<open>challenge_file_path\<close> is computed and not used.
\<close>

definition process_challenge ::
  "remote \<Rightarrow> ustr \<Rightarrow> ustr \<Rightarrow> challenge \<Rightarrow> nat \<times> ustr list \<Rightarrow> (nat \<times> ustr list) io" where
  "process_challenge r output_dir api_url challenge state =
     (let (next_task, links_to_review) = state;
          challenge_name = dict_get (ch_name challenge) (u ''Unnamed Challenge'');
          task_id = next_task
      in bind_io (emit [Add_task (Processing_Challenge challenge_name) 100,
                        Update_advance task_id 10]) (\<lambda>_.
         bind_io (subscript_id challenge) (\<lambda>challenge_id.
         bind_io (fetch_challenge_details r challenge_id) (\<lambda>details.
         let challenge_data = or_challenge details challenge;
             category = dict_get (ch_category challenge_data) (u ''Uncategorized'');
             challenge_file_path =
               os_path_join output_dir
                 [CHALLENGES_FOLDER, category @ u ''_'' @ slugify challenge_name @ u ''.md''];
             (saved_file_path, saved) =
               save_challenge_metadata challenge_data
                 (os_path_join output_dir [CHALLENGES_FOLDER]);
             (next_task', downloaded) =
               download_files r output_dir api_url challenge_name
                 (dict_get (ch_files challenge_data) []) (Suc next_task)
         in bind_io (emit (saved
                      @ [Console_log (Saved_challenge_file saved_file_path),
                         Update_advance task_id 40]
                      @ downloaded
                      @ [Update_advance task_id 50])) (\<lambda>_.
            return_io
              (next_task',
               links_to_review
               @ re_findall_links (dict_get (ch_description challenge_data) [])))))))"

fun process_challenges ::
  "remote \<Rightarrow> ustr \<Rightarrow> ustr \<Rightarrow> challenge list \<Rightarrow> nat \<times> ustr list \<Rightarrow> (nat \<times> ustr list) io" where
  "process_challenges r output_dir api_url [] state = return_io state"
| "process_challenges r output_dir api_url (challenge # challenges) state =
     bind_io (process_challenge r output_dir api_url challenge state)
       (process_challenges r output_dir api_url challenges)"

text \<open>
  The index:
  \<^verbatim>\<open>with open(os.path.join(output_dir, "README.md"), "w") as readme_file:
    readme_file.write(f"# {ctf_name}\n\n## Challenges\n\n")
    for challenge in challenges:
        challenge_name = challenge.get("name", "Unnamed Challenge")
        category = challenge.get("category", "Uncategorized")
        readme_file.write(f"* [{challenge_name}](<{CHALLENGES_FOLDER}/{category}_{slugify(challenge_name)}.md>)\n")\<close>
  \<open>readme_link\<close> is the target of the link of an entry, between \<^verbatim>\<open>(<\<close> and \<^verbatim>\<open>>)\<close>.
\<close>

definition readme_link :: "challenge \<Rightarrow> ustr" where
  "readme_link challenge =
     (let challenge_name = dict_get (ch_name challenge) (u ''Unnamed Challenge'');
          category = dict_get (ch_category challenge) (u ''Uncategorized'')
      in CHALLENGES_FOLDER @ u ''/'' @ category @ u ''_'' @ slugify challenge_name @ u ''.md'')"

definition readme_entry :: "challenge \<Rightarrow> ustr" where
  "readme_entry challenge =
     (let challenge_name = dict_get (ch_name challenge) (u ''Unnamed Challenge'')
      in u ''* ['' @ challenge_name @ u ''](<'' @ readme_link challenge @ u ''>)'' @ [10])"

definition write_readme :: "ustr \<Rightarrow> ustr \<Rightarrow> challenge list \<Rightarrow> effect list" where
  "write_readme output_dir ctf_name challenges =
     (let readme_file = os_path_join output_dir [u ''README.md'']
      in Open_w readme_file
         # Write_str readme_file (u ''# '' @ ctf_name @ [10, 10] @ u ''## Challenges'' @ [10, 10])
         # map (\<lambda>challenge. Write_str readme_file (readme_entry challenge)) challenges)"

text \<open>
  \<^verbatim>\<open>def organize_challenges(challenges, output_dir, session, headers, api_url, update_existing, ctf_name)\<close>:
  the loop over the challenges, the index, and the advisory
  \<^verbatim>\<open>if links_to_review:
    console.print("External links found in descriptions; check for manual download needs.")\<close>
  The Python function returns nothing; the model returns \<^verbatim>\<open>links_to_review\<close>, so that
  the collection can be spoken about.
\<close>

definition organize_challenges ::
  "remote \<Rightarrow> challenge list \<Rightarrow> ustr \<Rightarrow> ustr \<Rightarrow> bool \<Rightarrow> ustr \<Rightarrow> ustr list io" where
  "organize_challenges r challenges output_dir api_url update_existing ctf_name =
     bind_io (process_challenges r output_dir api_url challenges (0, [])) (\<lambda>(next_task, links_to_review).
     bind_io (emit (write_readme output_dir ctf_name challenges)) (\<lambda>_.
     bind_io (emit (if links_to_review \<noteq> [] then [Console_print External_links_found] else [])) (\<lambda>_.
     return_io links_to_review)))"

text \<open>
  \<^verbatim>\<open>def main():
    args = parse_arguments()
    configure_logging(args.verbose)
    create_directory_structure(args.output)
    headers = ...
    api_url = urljoin(args.url, "/api/v1")
    challenges = fetch_challenges(api_url, headers)
    session = requests.Session()
    organize_challenges(challenges, args.output, session, headers, api_url, args.update, args.name)
    console.print("[bold green]Download completed![/bold green]")\<close>
  The verbosity only lowers the threshold of the logger below \<^verbatim>\<open>WARNING\<close>; the messages
  modelled here are errors and console lines, which are shown at every level.
\<close>

definition main :: "remote \<Rightarrow> arguments \<Rightarrow> unit io" where
  "main r args =
     bind_io (emit (create_directory_structure (arg_output args))) (\<lambda>_.
     let api_url = urljoin r (arg_url args) (u ''/api/v1'')
     in bind_io (fetch_challenges r) (\<lambda>challenges.
        bind_io (organize_challenges r challenges (arg_output args) api_url
                   (arg_update args) (arg_name args)) (\<lambda>_.
        emit [Console_print Download_completed])))"

section \<open>Observations on a run\<close>

text \<open>
  What the properties below read off the effects of a run: the files opened in text mode
  (the metadata files and the index; assets are opened in binary mode), the strings
  written to a file, the chunks written in binary mode, the bytes reported to a progress
  task, and the lines printed on the console.
\<close>

definition opened_w :: "effect list \<Rightarrow> ustr list" where
  "opened_w effects = [p. Open_w p \<leftarrow> effects]"

definition opened_wb :: "effect list \<Rightarrow> ustr list" where
  "opened_wb effects = [p. Open_wb p \<leftarrow> effects]"

definition strings_written :: "ustr \<Rightarrow> effect list \<Rightarrow> ustr list" where
  "strings_written file effects = [s. Write_str p s \<leftarrow> effects, p = file]"

definition chunks_written :: "ustr \<Rightarrow> effect list \<Rightarrow> byte list list" where
  "chunks_written file effects = [b. Write_bytes p b \<leftarrow> effects, p = file]"

definition advanced :: "nat \<Rightarrow> effect list \<Rightarrow> nat" where
  "advanced task effects = sum_list [n. Update_advance t n \<leftarrow> effects, t = task]"

definition printed :: "effect list \<Rightarrow> message list" where
  "printed effects = [m. Console_print m \<leftarrow> effects]"

text \<open>
  The record the loop body works with, \<^verbatim>\<open>challenge_data\<close>, for a summary: the detail when
  the detail fetch returns one that is not empty, the summary otherwise.
\<close>

definition challenge_data :: "remote \<Rightarrow> challenge \<Rightarrow> challenge" where
  "challenge_data r challenge =
     (case ch_id challenge of
        None \<Rightarrow> challenge
      | Some i \<Rightarrow>
          (case fst (fetch_challenge_details r i) of
             Inr details \<Rightarrow> or_challenge details challenge
           | Inl _ \<Rightarrow> challenge))"

text \<open>
  A summary whose processing raises nothing: it has an identifier, and the body of its
  detail is malformed or a JSON object.
\<close>

definition answered :: "remote \<Rightarrow> challenge \<Rightarrow> bool" where
  "answered r challenge =
     (case ch_id challenge of
        None \<Rightarrow> False
      | Some i \<Rightarrow> challenge_response r i \<noteq> Not_An_Object)"

text \<open>The path at which \<^verbatim>\<open>organize_challenges\<close> has the metadata of a record saved.\<close>

definition metadata_path :: "ustr \<Rightarrow> challenge \<Rightarrow> ustr" where
  "metadata_path output_dir record =
     fst (save_challenge_metadata record (os_path_join output_dir [CHALLENGES_FOLDER]))"

text \<open>
  The output directory as a prefix of the paths joined to it, and the effects that touch
  no text file and print nothing (proof devices).
\<close>

definition path_base :: "ustr \<Rightarrow> ustr" where
  "path_base output_dir =
     (if output_dir = [] \<or> last output_dir = 47 then output_dir else output_dir @ [47])"

definition quiet :: "effect \<Rightarrow> bool" where
  "quiet e =
     (case e of Open_w p \<Rightarrow> False | Write_str p s \<Rightarrow> False | Console_print m \<Rightarrow> False
      | _ \<Rightarrow> True)"

text \<open>
  A list of effects that leaves every file it touches with a content that does not depend
  on the file system it is run on (a proof device for repeated runs).
\<close>

definition overwriting :: "effect list \<Rightarrow> bool" where
  "overwriting effects = (\<forall>fs. run_effects effects fs = fs ++ run_effects effects Map.empty)"

section \<open>Example inputs\<close>

text \<open>
  A platform with one challenge, whose detail has a description with the same link twice
  and one attached file of 1030 bytes, served without a content-length header.
\<close>

definition example_summary :: challenge where
  "example_summary =
     \<lparr>ch_id = Some 1, ch_name = Some (u ''Foo''), ch_category = Some (u ''web''),
      ch_description = None, ch_files = None, ch_others = False\<rparr>"

definition example_detail :: challenge where
  "example_detail =
     \<lparr>ch_id = Some 1, ch_name = Some (u ''Foo''), ch_category = Some (u ''web''),
      ch_description = Some (u ''see http://a.io/x and http://a.io/x''),
      ch_files = Some [u ''/files/a.bin''], ch_others = True\<rparr>"

definition example_remote :: remote where
  "example_remote =
     \<lparr>urljoin = (\<lambda>base url. u ''http://ctf.io'' @ url),
      url_file_name = (\<lambda>url. u ''a.bin''),
      challenges_response = Envelope (Some [example_summary]),
      challenge_response = (\<lambda>i. Envelope (Some example_detail)),
      asset = (\<lambda>url. \<lparr>content_length = None, content = replicate 1030 7\<rparr>)\<rparr>"

definition example_arguments :: arguments where
  "example_arguments =
     \<lparr>arg_url = u ''http://ctf.io'', arg_name = u ''Demo'', arg_session = u ''token'',
      arg_output = u ''out'', arg_update = False, arg_verbose = 0\<rparr>"

text \<open>A summary without identifier.\<close>

definition example_no_id :: challenge where
  "example_no_id =
     \<lparr>ch_id = None, ch_name = Some (u ''Bar''), ch_category = None,
      ch_description = None, ch_files = None, ch_others = False\<rparr>"

text \<open>
  Two summaries whose names have the same slug, on a platform where every detail fetch
  returns malformed text; and a platform with two challenges where the detail fetch of the
  second one fails.
\<close>

definition intro_first :: challenge where
  "intro_first =
     \<lparr>ch_id = Some 1, ch_name = Some (u ''Intro''), ch_category = Some (u ''misc''),
      ch_description = None, ch_files = None, ch_others = False\<rparr>"

definition intro_second :: challenge where
  "intro_second =
     \<lparr>ch_id = Some 2, ch_name = Some (u ''intro!''), ch_category = Some (u ''misc''),
      ch_description = None, ch_files = None, ch_others = False\<rparr>"

definition colliding_remote :: remote where
  "colliding_remote =
     example_remote\<lparr>challenges_response := Envelope (Some [intro_first, intro_second]),
                    challenge_response := (\<lambda>i. Malformed)\<rparr>"

definition degraded_remote :: remote where
  "degraded_remote =
     example_remote\<lparr>challenges_response := Envelope (Some [example_summary, intro_second]),
                    challenge_response :=
                      (\<lambda>i. if i = 1 then Envelope (Some example_detail) else Malformed)\<rparr>"

section \<open>Properties of the slug engine\<close>

lemma u_dash: "u ''-'' = [45]"
  by (simp add: u_def)

lemma re_sub_plus_collapse:
  "re_sub_plus is_space [45] s = collapse_space_runs s"
proof (induction s rule: collapse_space_runs.induct)
  case 1
  show ?case by simp
next
  case (2 c)
  show ?case by simp
next
  case (3 c d cs)
  show ?case
  proof (cases "is_space c")
    case False
    with 3 show ?thesis by simp
  next
    case c: True
    show ?thesis
    proof (cases "is_space d")
      case True
      with c 3 show ?thesis by simp
    next
      case False
      with c 3 show ?thesis by simp
    qed
  qed
qed

lemma re_sub_char_delete:
  "re_sub_char (\<lambda>c. \<not> P c) [] s = filter P s"
  by (induction s) simp_all

lemma dropWhile_rev_ends:
  "rev (dropWhile P (rev (dropWhile P s))) = dropWhile P (rev (dropWhile P (rev s)))"
proof (cases "\<forall>x\<in>set s. P x")
  case True
  then have e: "dropWhile P s = []" "dropWhile P (rev s) = []"
    by (simp_all add: dropWhile_eq_Nil_conv)
  show ?thesis unfolding e by simp
next
  case False
  define a where "a = takeWhile P s"
  define m where "m = dropWhile P s"
  have s: "s = a @ m" by (simp add: a_def m_def)
  have a: "\<forall>x\<in>set a. P x" by (auto simp: a_def dest: set_takeWhileD)
  from False have mne: "m \<noteq> []" by (auto simp: m_def)
  then have hd: "\<not> P (hd m)" unfolding m_def by (rule hd_dropWhile)
  from mne hd have ex: "\<exists>x\<in>set (rev m). \<not> P x" by (cases m) auto
  define r where "r = rev (dropWhile P (rev m))"
  have r: "dropWhile P r = r"
  proof -
    from mne obtain x m' where m: "m = x # m'" by (cases m) auto
    with hd have x: "\<not> P x" by simp
    have "dropWhile P (rev m' @ [x]) = dropWhile P (rev m') @ [x] \<or>
          dropWhile P (rev m' @ [x]) = [x]"
      using x by (simp add: dropWhile_append)
    then have "r = x # rev (dropWhile P (rev m')) \<or> r = [x]"
      by (auto simp: r_def m)
    with x show ?thesis by auto
  qed
  from ex obtain y where "y \<in> set (rev m)" and "\<not> P y" by blast
  then have "dropWhile P (rev m @ rev a) = dropWhile P (rev m) @ rev a"
    by (rule dropWhile_append1)
  then have "dropWhile P (rev s) = dropWhile P (rev m) @ rev a"
    by (simp add: s)
  then have "dropWhile P (rev (dropWhile P (rev s))) = dropWhile P (a @ r)"
    by (simp add: r_def)
  also have "\<dots> = dropWhile P r"
    using a by (simp add: dropWhile_append2)
  also have "\<dots> = r" by (rule r)
  finally show ?thesis by (simp add: r_def m_def)
qed

lemma str_strip_trim: "str_strip [45] s = trim_separators s"
  by (simp add: str_strip_def trim_separators_def dropWhile_rev_ends)

lemma slugify_eq_reference: "slugify text = slugify_reference text"
  by (simp add: slugify_def slugify_reference_def u_dash re_sub_plus_collapse
      re_sub_char_delete str_strip_trim)

lemma slugify_example:
  "slugify (u ''SQL Injection 101!!!'') = SLUG_MARKER @ u ''sql-injection-101''"
  by (simp add: slugify_def u_def str_lower_def lower_cp_def is_space_def is_slug_char_def
      str_strip_def)

text \<open>
  C5. \<^verbatim>\<open>slugify\<close> has no failing branch and is a function of its argument alone; it equals
  the reference transform (lowercase, white-space runs collapsed to one \<^verbatim>\<open>-\<close>, characters
  outside \<^verbatim>\<open>[a-z0-9-]\<close> removed, separators trimmed at both ends, marker prefixed) on every
  string; every result begins with the marker, also for the empty string and for a string
  of disallowed characters only, where the result is the marker alone; and
  \<^verbatim>\<open>slugify("SQL Injection 101!!!")\<close> is the marker followed by \<^verbatim>\<open>sql-injection-101\<close>.
\<close>

theorem slugify_refines_reference:
  "slugify text = slugify_reference text
   \<and> take (length SLUG_MARKER) (slugify text) = SLUG_MARKER
   \<and> slugify [] = SLUG_MARKER
   \<and> slugify (u ''!!!'') = SLUG_MARKER
   \<and> slugify (u ''SQL Injection 101!!!'') = [128306, 32] @ u ''sql-injection-101''"
proof -
  have 1: "slugify text = slugify_reference text"
    by (rule slugify_eq_reference)
  have 2: "take (length SLUG_MARKER) (slugify text) = SLUG_MARKER"
    by (simp add: slugify_def)
  have 3: "slugify [] = SLUG_MARKER"
    by (simp add: slugify_def str_lower_def str_strip_def)
  have 4: "slugify (u ''!!!'') = SLUG_MARKER"
    by (simp add: slugify_def u_def str_lower_def lower_cp_def is_space_def is_slug_char_def
        str_strip_def)
  have 5: "slugify (u ''SQL Injection 101!!!'') = [128306, 32] @ u ''sql-injection-101''"
    using slugify_example by (simp add: SLUG_MARKER_def)
  from 1 2 3 4 5 show ?thesis by blast
qed

section \<open>Files written by the metadata writer and the asset downloader\<close>

lemma run_effects_append: "run_effects (a @ b) fs = run_effects b (run_effects a fs)"
  by (simp add: run_effects_def)

lemma run_effects_Cons: "run_effects (e # es) fs = run_effects es (apply_effect e fs)"
  by (simp add: run_effects_def)

lemma run_effects_Nil: "run_effects [] fs = fs"
  by (simp add: run_effects_def)


lemma iter_content_Nil: "iter_content n [] = []"
  by (simp add: iter_content.simps)

lemma iter_content_step:
  "0 < n \<Longrightarrow> bs \<noteq> [] \<Longrightarrow> iter_content n bs = take n bs # iter_content n (drop n bs)"
  by (subst iter_content.simps) simp

lemma concat_iter_content: "0 < n \<Longrightarrow> concat (iter_content n bs) = bs"
proof (induction n bs rule: iter_content.induct)
  case (1 n bs)
  then show ?case by (cases "bs = []") (simp_all add: iter_content_Nil iter_content_step)
qed

lemma iter_content_sizes:
  "0 < n \<Longrightarrow> c \<in> set (iter_content n bs) \<Longrightarrow> 0 < length c \<and> length c \<le> n"
proof (induction n bs rule: iter_content.induct)
  case (1 n bs)
  then show ?case by (cases "bs = []") (auto simp: iter_content_Nil iter_content_step)
qed

lemma iter_content_full:
  "0 < n \<Longrightarrow> c \<in> set (butlast (iter_content n bs)) \<Longrightarrow> length c = n"
proof (induction n bs rule: iter_content.induct)
  case (1 n bs)
  show ?case
  proof (cases "bs = []")
    case True
    with 1 show ?thesis by (simp add: iter_content_Nil)
  next
    case False
    show ?thesis
    proof (cases "drop n bs = []")
      case True
      with False 1 show ?thesis by (simp add: iter_content_step iter_content_Nil)
    next
      case ne: False
      then have len: "n \<le> length bs" by simp
      from ne 1(2) have "iter_content n (drop n bs) \<noteq> []"
        by (simp add: iter_content_step)
      with ne False 1 len show ?thesis
        by (auto simp: iter_content_step)
    qed
  qed
qed


lemma write_chunk_Nil: "write_chunk destination task [] = []"
  by (simp add: write_chunk_def)

lemma write_chunk_nonempty:
  "c \<noteq> [] \<Longrightarrow>
   write_chunk destination task c =
     [Write_bytes destination c, Update_advance task (length c)]"
  by (simp add: write_chunk_def)

lemma run_write_chunks:
  "fs destination = Some (Binary t) \<Longrightarrow>
   run_effects (concat (map (write_chunk destination task) chunks)) fs =
     fs(destination \<mapsto> Binary (t @ concat chunks))"
proof (induction chunks arbitrary: fs t)
  case Nil
  then show ?case by (simp add: run_effects_Nil map_upd_triv)
next
  case (Cons c chunks)
  show ?case
  proof (cases "c = []")
    case True
    with Cons show ?thesis by (simp add: write_chunk_Nil)
  next
    case False
    have "run_effects (concat (map (write_chunk destination task) chunks))
            (fs(destination \<mapsto> Binary (t @ c))) =
          (fs(destination \<mapsto> Binary (t @ c)))(destination \<mapsto> Binary ((t @ c) @ concat chunks))"
      by (rule Cons.IH) simp
    with False Cons.prems show ?thesis
      by (simp add: write_chunk_nonempty run_effects_append run_effects_Cons run_effects_Nil)
  qed
qed

lemma run_download:
  "run_effects (download_challenge_assets r url destination task) fs =
     fs(destination \<mapsto> Binary (content (asset r url)))"
proof -
  have "run_effects (concat (map (write_chunk destination task)
            (iter_content 1024 (content (asset r url)))))
          (fs(destination \<mapsto> Binary [])) =
        (fs(destination \<mapsto> Binary []))(destination \<mapsto>
           Binary ([] @ concat (iter_content 1024 (content (asset r url)))))"
    by (rule run_write_chunks) simp
  then show ?thesis
    by (simp add: download_challenge_assets_def Let_def run_effects_Cons run_effects_append
        run_effects_Nil concat_iter_content)
qed

lemma chunks_written_write_chunks:
  "chunks_written destination (concat (map (write_chunk destination task) chunks)) =
     filter (\<lambda>c. c \<noteq> []) chunks"
proof (induction chunks)
  case Nil
  show ?case by (simp add: chunks_written_def)
next
  case (Cons c chunks)
  then show ?case
    by (cases "c = []") (simp_all add: chunks_written_def write_chunk_Nil write_chunk_nonempty)
qed

lemma filter_iter_content:
  "filter (\<lambda>c. c \<noteq> []) (iter_content 1024 bs) = iter_content 1024 bs"
  using iter_content_sizes [of 1024 _ bs] by (auto simp: filter_id_conv)

lemma chunks_written_download:
  "chunks_written destination (download_challenge_assets r url destination task) =
     iter_content 1024 (content (asset r url))"
proof -
  have "chunks_written destination (download_challenge_assets r url destination task) =
        chunks_written destination (concat (map (write_chunk destination task)
          (iter_content 1024 (content (asset r url)))))"
    by (simp add: download_challenge_assets_def Let_def chunks_written_def)
  then show ?thesis
    by (simp add: chunks_written_write_chunks filter_iter_content)
qed

lemma advanced_write_chunks:
  "advanced task (concat (map (write_chunk destination task) chunks)) = length (concat chunks)"
proof (induction chunks)
  case Nil
  show ?case by (simp add: advanced_def)
next
  case (Cons c chunks)
  then show ?case
    by (cases "c = []") (simp_all add: advanced_def write_chunk_Nil write_chunk_nonempty)
qed

lemma advanced_download:
  "advanced task (download_challenge_assets r url destination task) =
     length (content (asset r url))"
proof -
  have "advanced task (download_challenge_assets r url destination task) =
        advanced task (concat (map (write_chunk destination task)
          (iter_content 1024 (content (asset r url)))))"
    by (simp add: download_challenge_assets_def Let_def advanced_def)
  then show ?thesis
    by (simp add: advanced_write_chunks concat_iter_content)
qed

lemma opened_wb_write_chunks:
  "opened_wb (concat (map (write_chunk destination task) chunks)) = []"
proof (induction chunks)
  case Nil
  show ?case by (simp add: opened_wb_def)
next
  case (Cons c chunks)
  then show ?case
    by (cases "c = []") (simp_all add: opened_wb_def write_chunk_Nil write_chunk_nonempty)
qed

lemma opened_wb_download:
  "opened_wb (download_challenge_assets r url destination task) = [destination]"
proof -
  have "opened_wb (download_challenge_assets r url destination task) =
        destination # opened_wb (concat (map (write_chunk destination task)
          (iter_content 1024 (content (asset r url)))))"
    by (simp add: download_challenge_assets_def Let_def opened_wb_def)
  then show ?thesis by (simp add: opened_wb_write_chunks)
qed


text \<open>
  C4. The update flag is handed to \<^verbatim>\<open>organize_challenges\<close> and never read: a run with the
  flag set has the same result and the same effects, in the same order, as a run without
  it, hence leaves the same files with the same contents and the same exit status.
\<close>

theorem update_flag_has_no_effect:
  "main r (args\<lparr>arg_update := True\<rparr>) = main r (args\<lparr>arg_update := False\<rparr>)
   \<and> organize_challenges r challenges output_dir api_url True ctf_name =
       organize_challenges r challenges output_dir api_url False ctf_name
   \<and> run_effects (snd (main r (args\<lparr>arg_update := True\<rparr>))) fs =
       run_effects (snd (main r (args\<lparr>arg_update := False\<rparr>))) fs
   \<and> exit_status (fst (main r (args\<lparr>arg_update := True\<rparr>))) =
       exit_status (fst (main r (args\<lparr>arg_update := False\<rparr>)))"
proof -
  have o: "\<And>b. organize_challenges r challenges output_dir api_url b ctf_name =
       organize_challenges r challenges output_dir api_url False ctf_name"
    by (simp add: organize_challenges_def)
  have o': "\<And>cs out api b n. organize_challenges r cs out api b n =
       organize_challenges r cs out api False n"
    by (simp add: organize_challenges_def)
  have m: "main r (args\<lparr>arg_update := True\<rparr>) = main r (args\<lparr>arg_update := False\<rparr>)"
    unfolding main_def by (simp add: o' [of _ _ _ True])
  from o m show ?thesis by simp
qed


section \<open>Sequencing\<close>

lemma bind_io_Inr: "bind_io (Inr x, es) f = (fst (f x), es @ snd (f x))"
  by (simp add: bind_io_def split: prod.splits)

lemma bind_io_Inl: "bind_io (Inl e, es) f = (Inl e, es)"
  by (simp add: bind_io_def)

lemma bind_io_emit: "bind_io (emit es) f = (fst (f ()), es @ snd (f ()))"
  by (simp add: emit_def bind_io_Inr)

lemma bind_io_return: "bind_io (return_io x) f = f x"
  by (simp add: return_io_def bind_io_Inr)

section \<open>Paths of the metadata files and of the index\<close>

lemma folder_path:
  "os_path_join output_dir [CHALLENGES_FOLDER] = path_base output_dir @ CHALLENGES_FOLDER"
  by (simp add: os_path_join.simps CHALLENGES_FOLDER_def u_def path_base_def)

lemma readme_path:
  "os_path_join output_dir [u ''README.md''] = path_base output_dir @ u ''README.md''"
  by (simp add: os_path_join.simps u_def path_base_def)

lemma metadata_path_eq:
  "metadata_path output_dir d =
     path_base output_dir @ CHALLENGES_FOLDER @ [47]
     @ slugify (dict_get (ch_name d) (u ''Unnamed Challenge'')) @ u ''.md''"
  by (simp add: metadata_path_def save_challenge_metadata_def Let_def path_base_def
      os_path_join.simps slugify_def SLUG_MARKER_def CHALLENGES_FOLDER_def u_def)

lemma readme_not_metadata:
  "os_path_join output_dir [u ''README.md''] \<noteq> metadata_path output_dir d"
proof -
  have "u ''README.md'' \<noteq>
        CHALLENGES_FOLDER @ [47]
        @ slugify (dict_get (ch_name d) (u ''Unnamed Challenge'')) @ u ''.md''"
    by (simp add: CHALLENGES_FOLDER_def u_def)
  then show ?thesis
    by (simp only: readme_path metadata_path_eq same_append_eq not_False_eq_True)
qed

lemma metadata_path_inj:
  "metadata_path output_dir d = metadata_path output_dir d' \<longleftrightarrow>
   slugify (dict_get (ch_name d) (u ''Unnamed Challenge'')) =
   slugify (dict_get (ch_name d') (u ''Unnamed Challenge''))"
  by (simp add: metadata_path_eq)

section \<open>One pass of the loop over the challenges\<close>

lemma process_challenge_no_id:
  "ch_id c = None \<Longrightarrow>
   process_challenge r out api c (k, links) =
     (Inl KeyError,
      [Add_task (Processing_Challenge (dict_get (ch_name c) (u ''Unnamed Challenge''))) 100,
       Update_advance k 10])"
  by (simp add: process_challenge_def Let_def bind_io_emit subscript_id_def bind_io_Inl)

lemma process_challenge_not_an_object:
  "ch_id c = Some i \<Longrightarrow> challenge_response r i = Not_An_Object \<Longrightarrow>
   process_challenge r out api c (k, links) =
     (Inl TypeError,
      [Add_task (Processing_Challenge (dict_get (ch_name c) (u ''Unnamed Challenge''))) 100,
       Update_advance k 10])"
  by (simp add: process_challenge_def Let_def bind_io_emit subscript_id_def bind_io_Inl
      bind_io_Inr fetch_challenge_details_def)

lemma fetch_challenge_details_answered:
  "challenge_response r i \<noteq> Not_An_Object \<Longrightarrow>
   \<exists>details. fst (fetch_challenge_details r i) = Inr details"
  by (cases "challenge_response r i")
     (auto simp: fetch_challenge_details_def split: option.splits)

lemma process_challenge_answered:
  assumes "ch_id c = Some i" and "challenge_response r i \<noteq> Not_An_Object"
  shows "process_challenge r out api c (k, links) =
     (Inr (fst (download_files r out api (dict_get (ch_name c) (u ''Unnamed Challenge''))
                  (dict_get (ch_files (challenge_data r c)) []) (Suc k)),
           links @ re_findall_links (dict_get (ch_description (challenge_data r c)) [])),
      [Add_task (Processing_Challenge (dict_get (ch_name c) (u ''Unnamed Challenge''))) 100,
       Update_advance k 10]
      @ snd (fetch_challenge_details r i)
      @ snd (save_challenge_metadata (challenge_data r c)
               (os_path_join out [CHALLENGES_FOLDER]))
      @ [Console_log (Saved_challenge_file (metadata_path out (challenge_data r c))),
         Update_advance k 40]
      @ snd (download_files r out api (dict_get (ch_name c) (u ''Unnamed Challenge''))
               (dict_get (ch_files (challenge_data r c)) []) (Suc k))
      @ [Update_advance k 50])"
proof -
  from assms(2) obtain details where "fst (fetch_challenge_details r i) = Inr details"
    using fetch_challenge_details_answered by blast
  then obtain es where f: "fetch_challenge_details r i = (Inr details, es)"
    by (cases "fetch_challenge_details r i") simp
  have cd: "challenge_data r c = or_challenge details c"
    by (simp add: challenge_data_def assms(1) f)
  show ?thesis
    unfolding process_challenge_def cd
    by (simp add: Let_def bind_io_emit subscript_id_def assms(1) bind_io_Inr f
        return_io_def metadata_path_def split: prod.splits)
qed


section \<open>Observations on the effects of the orchestrator\<close>

lemma opened_w_Nil: "opened_w [] = []"
  by (simp add: opened_w_def)

lemma opened_w_append: "opened_w (a @ b) = opened_w a @ opened_w b"
  by (simp add: opened_w_def)

lemma opened_w_Cons:
  "opened_w (e # es) = (case e of Open_w p \<Rightarrow> [p] | _ \<Rightarrow> []) @ opened_w es"
  by (simp add: opened_w_def)

lemma printed_Nil: "printed [] = []"
  by (simp add: printed_def)

lemma printed_append: "printed (a @ b) = printed a @ printed b"
  by (simp add: printed_def)

lemma printed_Cons:
  "printed (e # es) = (case e of Console_print m \<Rightarrow> [m] | _ \<Rightarrow> []) @ printed es"
  by (simp add: printed_def)

lemma strings_written_Nil: "strings_written file [] = []"
  by (simp add: strings_written_def)

lemma strings_written_append:
  "strings_written file (a @ b) = strings_written file a @ strings_written file b"
  by (simp add: strings_written_def)

lemma strings_written_Cons:
  "strings_written file (e # es) =
     (case e of Write_str p s \<Rightarrow> if p = file then [s] else [] | _ \<Rightarrow> [])
     @ strings_written file es"
  by (simp add: strings_written_def)

lemma quiet_observations:
  "list_all quiet es \<Longrightarrow>
   opened_w es = [] \<and> printed es = [] \<and> strings_written file es = []"
proof (induction es)
  case Nil
  show ?case by (simp add: opened_w_Nil printed_Nil strings_written_Nil)
next
  case (Cons e es)
  then show ?case
    by (cases e) (simp_all add: opened_w_Cons printed_Cons strings_written_Cons quiet_def)
qed

lemma quiet_write_chunks:
  "list_all quiet (concat (map (write_chunk destination task) chunks))"
  by (induction chunks) (simp_all add: write_chunk_def quiet_def)

lemma quiet_download: "list_all quiet (download_challenge_assets r url destination task)"
  by (simp add: download_challenge_assets_def Let_def quiet_write_chunks) (simp add: quiet_def)

lemma quiet_download_files:
  "list_all quiet (snd (download_files r out api name file_urls next_task))"
proof (induction file_urls arbitrary: next_task)
  case Nil
  show ?case by simp
next
  case (Cons file_url file_urls)
  show ?case
  proof -
    have q: "\<And>d n. quiet (Add_task d n)" by (simp add: quiet_def)
    from Cons.IH [of "Suc next_task"] show ?thesis
      by (auto simp add: Let_def quiet_download q split: prod.splits)
  qed
qed

lemma quiet_fetch_challenge_details: "list_all quiet (snd (fetch_challenge_details r i))"
  by (cases "challenge_response r i")
     (simp_all add: fetch_challenge_details_def quiet_def split: option.splits)

lemma observations_save:
  "opened_w (snd (save_challenge_metadata d (os_path_join out [CHALLENGES_FOLDER]))) =
     [metadata_path out d]
   \<and> printed (snd (save_challenge_metadata d (os_path_join out [CHALLENGES_FOLDER]))) = []
   \<and> strings_written (os_path_join out [u ''README.md''])
        (snd (save_challenge_metadata d (os_path_join out [CHALLENGES_FOLDER]))) = []"
proof -
  have "snd (save_challenge_metadata d (os_path_join out [CHALLENGES_FOLDER])) =
        [Open_w (metadata_path out d),
         Write_str (metadata_path out d)
           (metadata_text (dict_get (ch_name d) (u ''Unnamed Challenge''))
              (dict_get (ch_description d) (u ''No description provided.'')))]"
    by (simp add: save_challenge_metadata_def metadata_path_def Let_def)
  then show ?thesis
    using readme_not_metadata [of out d]
    by (simp add: opened_w_Cons opened_w_Nil printed_Cons printed_Nil strings_written_Cons
        strings_written_Nil)
qed

lemma observations_process_challenge_answered:
  assumes "answered r c"
  shows "opened_w (snd (process_challenge r out api c (k, links))) =
           [metadata_path out (challenge_data r c)]
   \<and> printed (snd (process_challenge r out api c (k, links))) = []
   \<and> strings_written (os_path_join out [u ''README.md''])
        (snd (process_challenge r out api c (k, links))) = []
   \<and> (\<exists>k'. fst (process_challenge r out api c (k, links)) =
          Inr (k', links @ re_findall_links (dict_get (ch_description (challenge_data r c)) [])))"
proof -
  from assms obtain i where i: "ch_id c = Some i" "challenge_response r i \<noteq> Not_An_Object"
    by (auto simp: answered_def split: option.splits)
  let ?readme = "os_path_join out [u ''README.md'']"
  let ?fetched = "snd (fetch_challenge_details r i)"
  let ?downloaded = "snd (download_files r out api
       (dict_get (ch_name c) (u ''Unnamed Challenge''))
       (dict_get (ch_files (challenge_data r c)) []) (Suc k))"
  have q1: "opened_w ?fetched = [] \<and> printed ?fetched = []
      \<and> strings_written ?readme ?fetched = []"
    by (rule quiet_observations) (rule quiet_fetch_challenge_details)
  have q2: "opened_w ?downloaded = [] \<and> printed ?downloaded = []
      \<and> strings_written ?readme ?downloaded = []"
    by (rule quiet_observations) (rule quiet_download_files)
  show ?thesis
    unfolding process_challenge_answered [OF i]
    using q1 q2 observations_save [of "challenge_data r c" out]
    by (simp add: opened_w_append opened_w_Cons opened_w_Nil printed_append printed_Cons
        printed_Nil strings_written_append strings_written_Cons strings_written_Nil)
qed

lemma observations_process_challenges_answered:
  assumes "\<forall>c \<in> set cs. answered r c"
  shows "opened_w (snd (process_challenges r out api cs (k, links))) =
           map (\<lambda>c. metadata_path out (challenge_data r c)) cs
   \<and> printed (snd (process_challenges r out api cs (k, links))) = []
   \<and> strings_written (os_path_join out [u ''README.md''])
        (snd (process_challenges r out api cs (k, links))) = []
   \<and> (\<exists>k'. fst (process_challenges r out api cs (k, links)) =
          Inr (k', links @ concat (map (\<lambda>c. re_findall_links
                 (dict_get (ch_description (challenge_data r c)) [])) cs)))"
  using assms
proof (induction cs arbitrary: k links)
  case Nil
  show ?case
    by (simp add: return_io_def opened_w_Nil printed_Nil strings_written_Nil)
next
  case (Cons c cs)
  then have a: "answered r c" and as: "\<forall>c \<in> set cs. answered r c" by simp_all
  let ?l = "links @ re_findall_links (dict_get (ch_description (challenge_data r c)) [])"
  from observations_process_challenge_answered [OF a, of out api k links]
  obtain k' es where p: "process_challenge r out api c (k, links) = (Inr (k', ?l), es)"
    and es: "opened_w es = [metadata_path out (challenge_data r c)]" "printed es = []"
      "strings_written (os_path_join out [u ''README.md'']) es = []"
    by (cases "process_challenge r out api c (k, links)") auto
  from Cons.IH [OF as, of k' ?l] es show ?case
    by (auto simp add: p bind_io_Inr opened_w_append printed_append strings_written_append)
qed


lemma observations_write_readme:
  "opened_w (write_readme out name cs) = [os_path_join out [u ''README.md'']]
   \<and> printed (write_readme out name cs) = []
   \<and> strings_written (os_path_join out [u ''README.md'']) (write_readme out name cs) =
       (u ''# '' @ name @ [10, 10] @ u ''## Challenges'' @ [10, 10]) # map readme_entry cs"
proof -
  let ?readme = "os_path_join out [u ''README.md'']"
  have "opened_w (map (\<lambda>c. Write_str ?readme (readme_entry c)) cs) = []
      \<and> printed (map (\<lambda>c. Write_str ?readme (readme_entry c)) cs) = []
      \<and> strings_written ?readme (map (\<lambda>c. Write_str ?readme (readme_entry c)) cs) =
          map readme_entry cs"
    by (induction cs)
       (simp_all add: opened_w_Nil opened_w_Cons printed_Nil printed_Cons strings_written_Nil
         strings_written_Cons)
  then show ?thesis
    by (simp add: write_readme_def Let_def opened_w_Cons printed_Cons strings_written_Cons)
qed

lemma organize_challenges_answered:
  assumes "\<forall>c \<in> set cs. answered r c"
  shows "fst (organize_challenges r cs out api upd name) =
           Inr (concat (map (\<lambda>c. re_findall_links
                  (dict_get (ch_description (challenge_data r c)) [])) cs))
   \<and> opened_w (snd (organize_challenges r cs out api upd name)) =
       map (\<lambda>c. metadata_path out (challenge_data r c)) cs @ [os_path_join out [u ''README.md'']]
   \<and> strings_written (os_path_join out [u ''README.md''])
        (snd (organize_challenges r cs out api upd name)) =
       (u ''# '' @ name @ [10, 10] @ u ''## Challenges'' @ [10, 10]) # map readme_entry cs
   \<and> printed (snd (organize_challenges r cs out api upd name)) =
       (if concat (map (\<lambda>c. re_findall_links
              (dict_get (ch_description (challenge_data r c)) [])) cs) \<noteq> []
        then [External_links_found] else [])"
proof -
  let ?l = "concat (map (\<lambda>c. re_findall_links
              (dict_get (ch_description (challenge_data r c)) [])) cs)"
  from observations_process_challenges_answered [OF assms, of out api 0 "[]"]
  obtain k' es where p: "process_challenges r out api cs (0, []) = (Inr (k', ?l), es)"
    and es: "opened_w es = map (\<lambda>c. metadata_path out (challenge_data r c)) cs"
      "printed es = []" "strings_written (os_path_join out [u ''README.md'']) es = []"
    by (cases "process_challenges r out api cs (0, [])") auto
  from es observations_write_readme [of out name cs] show ?thesis
    by (simp add: organize_challenges_def p bind_io_Inr bind_io_emit return_io_def
        opened_w_append printed_append strings_written_append opened_w_Cons opened_w_Nil
        printed_Cons printed_Nil strings_written_Cons strings_written_Nil)
qed

lemma fetch_challenges_envelope:
  "challenges_response r = Envelope member \<Longrightarrow>
   fetch_challenges r = (Inr (dict_get member []), [])"
  by (simp add: fetch_challenges_def)

lemma main_envelope:
  assumes "challenges_response r = Envelope member"
  shows "fst (main r args) =
           (case fst (organize_challenges r (dict_get member []) (arg_output args)
                        (urljoin r (arg_url args) (u ''/api/v1'')) (arg_update args)
                        (arg_name args)) of
              Inl e \<Rightarrow> Inl e | Inr _ \<Rightarrow> Inr ())
   \<and> snd (main r args) =
       create_directory_structure (arg_output args)
       @ snd (organize_challenges r (dict_get member []) (arg_output args)
                (urljoin r (arg_url args) (u ''/api/v1'')) (arg_update args) (arg_name args))
       @ (case fst (organize_challenges r (dict_get member []) (arg_output args)
                        (urljoin r (arg_url args) (u ''/api/v1'')) (arg_update args)
                        (arg_name args)) of
              Inl e \<Rightarrow> [] | Inr _ \<Rightarrow> [Console_print Download_completed])"
proof -
  let ?o = "organize_challenges r (dict_get member []) (arg_output args)
                (urljoin r (arg_url args) (u ''/api/v1'')) (arg_update args) (arg_name args)"
  obtain res es where o: "?o = (res, es)" by (cases ?o)
  show ?thesis
    unfolding main_def Let_def fetch_challenges_envelope [OF assms] bind_io_emit bind_io_Inr o
    by (cases res) (simp_all add: bind_io_Inl bind_io_Inr emit_def)
qed

lemma observations_create_directory_structure:
  "opened_w (create_directory_structure out) = []
   \<and> printed (create_directory_structure out) = []
   \<and> strings_written file (create_directory_structure out) = []"
  by (simp add: create_directory_structure_def opened_w_Cons opened_w_Nil printed_Cons
      printed_Nil strings_written_Cons strings_written_Nil)

lemma process_challenges_first_no_id:
  assumes "\<forall>x \<in> set pre. answered r x" and "ch_id c = None"
  shows "fst (process_challenges r out api (pre @ c # post) (k, links)) = Inl KeyError
   \<and> opened_w (snd (process_challenges r out api (pre @ c # post) (k, links))) =
       map (\<lambda>c. metadata_path out (challenge_data r c)) pre
   \<and> printed (snd (process_challenges r out api (pre @ c # post) (k, links))) = []"
  using assms(1)
proof (induction pre arbitrary: k links)
  case Nil
  show ?case
    by (simp add: process_challenge_no_id [OF assms(2)] bind_io_Inl opened_w_Cons
        opened_w_Nil printed_Cons printed_Nil)
next
  case (Cons x pre)
  then have a: "answered r x" and as: "\<forall>x \<in> set pre. answered r x" by simp_all
  from observations_process_challenge_answered [OF a, of out api k links]
  obtain st es where p: "process_challenge r out api x (k, links) = (Inr st, es)"
    and es: "opened_w es = [metadata_path out (challenge_data r x)]" "printed es = []"
    by (cases "process_challenge r out api x (k, links)") auto
  obtain k' links' where st: "st = (k', links')" by (cases st)
  from Cons.IH [OF as, of k' links'] es show ?case
    by (simp add: p st bind_io_Inr opened_w_append printed_append)
qed

lemma organize_challenges_first_no_id:
  assumes "\<forall>x \<in> set pre. answered r x" and "ch_id c = None"
  shows "fst (organize_challenges r (pre @ c # post) out api upd name) = Inl KeyError
   \<and> opened_w (snd (organize_challenges r (pre @ c # post) out api upd name)) =
       map (\<lambda>c. metadata_path out (challenge_data r c)) pre
   \<and> printed (snd (organize_challenges r (pre @ c # post) out api upd name)) = []"
proof -
  from process_challenges_first_no_id [OF assms, of out api post 0 "[]"]
  obtain es where p: "process_challenges r out api (pre @ c # post) (0, []) = (Inl KeyError, es)"
    and es: "opened_w es = map (\<lambda>c. metadata_path out (challenge_data r c)) pre"
      "printed es = []"
    by (cases "process_challenges r out api (pre @ c # post) (0, [])") auto
  from es show ?thesis
    by (simp add: organize_challenges_def p bind_io_Inl)
qed

section \<open>The external links and the missing identifier\<close>

lemma example_links:
  "re_findall_links (u ''see http://a.io/x and http://a.io/x'') =
     [u ''http://a.io/x'', u ''http://a.io/x'']"
  by (simp add: match_link_def u_def is_space_def Let_def)

lemma example_answered: "answered example_remote example_summary"
  by (simp add: answered_def example_remote_def example_summary_def)

lemma example_challenge_data: "challenge_data example_remote example_summary = example_detail"
  by (simp add: challenge_data_def example_remote_def example_summary_def
      fetch_challenge_details_def or_challenge_def truthy_def example_detail_def)



text \<open>
  C10. When the challenge list has a summary without the \<^verbatim>\<open>id\<close> key (and the detail bodies
  are malformed text or JSON objects), \<^verbatim>\<open>organize_challenges\<close> ends with \<^verbatim>\<open>KeyError\<close>,
  raised by \<^verbatim>\<open>challenge["id"]\<close> where the detail is fetched, and the index is never opened
  for writing; the run then has exit status 1 and does not print the closing line. The
  fallback to the summary does not cover this case.
\<close>

theorem missing_id_raises_KeyError:
  assumes "\<exists>c \<in> set cs. ch_id c = None"
    and "\<forall>i. challenge_response r i \<noteq> Not_An_Object"
  shows "fst (organize_challenges r cs out api upd name) = Inl KeyError
   \<and> os_path_join out [u ''README.md'']
       \<notin> set (opened_w (snd (organize_challenges r cs out api upd name)))
   \<and> (challenges_response r = Envelope (Some cs) \<longrightarrow>
        fst (main r args) = Inl KeyError
        \<and> exit_status (fst (main r args)) = 1
        \<and> os_path_join (arg_output args) [u ''README.md'']
            \<notin> set (opened_w (snd (main r args)))
        \<and> Download_completed \<notin> set (printed (snd (main r args))))"
proof -
  from assms(1) obtain pre c post where cs: "cs = pre @ c # post" and c: "ch_id c = None"
    and pre: "\<forall>x \<in> set pre. ch_id x \<noteq> None"
    using split_list_first_prop [of cs "\<lambda>c. ch_id c = None"] by blast
  from pre assms(2) have a: "\<forall>x \<in> set pre. answered r x"
    by (auto simp: answered_def split: option.splits)
  have o: "fst (organize_challenges r cs out api upd name) = Inl KeyError
      \<and> os_path_join out [u ''README.md'']
          \<notin> set (opened_w (snd (organize_challenges r cs out api upd name)))
      \<and> printed (snd (organize_challenges r cs out api upd name)) = []"
    for out api upd name
    using organize_challenges_first_no_id [OF a c, of post out api upd name]
      readme_not_metadata [of out]
    unfolding cs by auto
  have m: "fst (main r args) = Inl KeyError
        \<and> exit_status (fst (main r args)) = 1
        \<and> os_path_join (arg_output args) [u ''README.md'']
            \<notin> set (opened_w (snd (main r args)))
        \<and> Download_completed \<notin> set (printed (snd (main r args)))"
    if e: "challenges_response r = Envelope (Some cs)"
    using o [of "arg_output args" "urljoin r (arg_url args) (u ''/api/v1'')"
        "arg_update args" "arg_name args"]
      main_envelope [OF e, of args]
      observations_create_directory_structure [of "arg_output args"]
    by (simp add: dict_get_def exit_status_def opened_w_append printed_append
        opened_w_Nil printed_Nil)
  from o [of out api] m show ?thesis by blast
qed


theorem missing_id_raises_KeyError_witness:
  "fst (main (example_remote\<lparr>challenges_response :=
                 Envelope (Some [example_summary, example_no_id])\<rparr>) example_arguments) =
     Inl KeyError
   \<and> exit_status (fst (main (example_remote\<lparr>challenges_response :=
                 Envelope (Some [example_summary, example_no_id])\<rparr>) example_arguments)) = 1
   \<and> os_path_join (u ''out'') [u ''README.md'']
       \<notin> set (opened_w (snd (main (example_remote\<lparr>challenges_response :=
                 Envelope (Some [example_summary, example_no_id])\<rparr>) example_arguments)))"
proof -
  let ?r = "example_remote\<lparr>challenges_response :=
                 Envelope (Some [example_summary, example_no_id])\<rparr>"
  have 1: "\<exists>c \<in> set [example_summary, example_no_id]. ch_id c = None"
    by (simp add: example_no_id_def)
  have 2: "\<forall>i. challenge_response ?r i \<noteq> Not_An_Object"
    by (simp add: example_remote_def)
  have 3: "challenges_response ?r = Envelope (Some [example_summary, example_no_id])"
    by simp
  have 4: "arg_output example_arguments = u ''out''"
    by (simp add: example_arguments_def)
  from missing_id_raises_KeyError [OF 1 2, of "u ''out''" "[]" False "[]" example_arguments] 3
  show ?thesis unfolding 4 by blast
qed

section \<open>Repeated runs\<close>

lemma overwritingD:
  "overwriting es \<Longrightarrow> run_effects es fs = fs ++ run_effects es Map.empty"
  unfolding overwriting_def by blast

lemma overwritingI:
  "(\<And>fs. run_effects es fs = fs ++ run_effects es Map.empty) \<Longrightarrow> overwriting es"
  unfolding overwriting_def by blast

lemma overwriting_Nil: "overwriting []"
  by (rule overwritingI) (simp add: run_effects_Nil)

lemma overwriting_append:
  assumes "overwriting a" and "overwriting b"
  shows "overwriting (a @ b)"
proof (rule overwritingI)
  fix fs
  have e: "run_effects (a @ b) Map.empty =
      run_effects a Map.empty ++ run_effects b Map.empty"
    unfolding run_effects_append by (rule overwritingD [OF assms(2)])
  have "run_effects (a @ b) fs = run_effects a fs ++ run_effects b Map.empty"
    unfolding run_effects_append by (rule overwritingD [OF assms(2)])
  also have "run_effects a fs = fs ++ run_effects a Map.empty"
    by (rule overwritingD [OF assms(1)])
  finally show "run_effects (a @ b) fs = fs ++ run_effects (a @ b) Map.empty"
    unfolding e by (simp only: map_add_assoc)
qed

lemma overwriting_update:
  assumes "\<And>fs. run_effects es fs = fs(p \<mapsto> v)"
  shows "overwriting es"
proof (rule overwritingI)
  fix fs
  show "run_effects es fs = fs ++ run_effects es Map.empty"
    unfolding assms by simp
qed

lemma overwriting_neutral:
  assumes "\<And>fs. apply_effect e fs = fs"
  shows "overwriting [e]"
proof (rule overwritingI)
  fix fs
  show "run_effects [e] fs = fs ++ run_effects [e] Map.empty"
    unfolding run_effects_Cons run_effects_Nil assms by simp
qed

lemma overwriting_Cons:
  "overwriting [e] \<Longrightarrow> overwriting es \<Longrightarrow> overwriting (e # es)"
  using overwriting_append [of "[e]" es] by simp

lemma overwriting_Cons2:
  "overwriting [e] \<Longrightarrow> overwriting (e' # es) \<Longrightarrow> overwriting (e # e' # es)"
  by (rule overwriting_Cons)

lemma overwriting_simple:
  "overwriting [Makedirs p]" "overwriting [Logger_error m]" "overwriting [Add_task d n]"
  "overwriting [Update_advance t n]" "overwriting [Console_log m]"
  "overwriting [Console_print m]"
  by (rule overwriting_neutral, simp)+

lemma run_save_challenge_metadata:
  "run_effects (snd (save_challenge_metadata c p)) fs =
     fs(fst (save_challenge_metadata c p) \<mapsto>
        Text (metadata_text (dict_get (ch_name c) (u ''Unnamed Challenge''))
                (dict_get (ch_description c) (u ''No description provided.''))))"
  by (simp add: save_challenge_metadata_def Let_def run_effects_Cons run_effects_Nil)

lemma overwriting_save: "overwriting (snd (save_challenge_metadata c p))"
  by (rule overwriting_update) (rule run_save_challenge_metadata)

lemma overwriting_download: "overwriting (download_challenge_assets r url destination task)"
  by (rule overwriting_update) (rule run_download)

lemma overwriting_download_files:
  "overwriting (snd (download_files r out api name file_urls next_task))"
proof (induction file_urls arbitrary: next_task)
  case Nil
  show ?case by (simp add: overwriting_Nil)
next
  case (Cons file_url file_urls)
  obtain n es where d:
    "download_files r out api name file_urls (Suc next_task) = (n, es)"
    by (cases "download_files r out api name file_urls (Suc next_task)")
  with Cons.IH [of "Suc next_task"] have es: "overwriting es" by simp
  have "overwriting (Add_task (Downloading_File (url_file_name r file_url)) 0
          # download_challenge_assets r (urljoin r api file_url)
              (os_path_join out
                 [CHALLENGES_FOLDER, slugify name @ u ''_'' @ url_file_name r file_url])
              next_task)"
    by (rule overwriting_Cons) (rule overwriting_simple, rule overwriting_download)
  with es have "overwriting ((Add_task (Downloading_File (url_file_name r file_url)) 0
          # download_challenge_assets r (urljoin r api file_url)
              (os_path_join out
                 [CHALLENGES_FOLDER, slugify name @ u ''_'' @ url_file_name r file_url])
              next_task) @ es)"
    by (rule overwriting_append [rotated])
  then show ?case by (simp add: Let_def d)
qed

lemma overwriting_fetch_challenge_details: "overwriting (snd (fetch_challenge_details r i))"
  by (cases "challenge_response r i")
     (simp_all add: fetch_challenge_details_def overwriting_Nil overwriting_simple
       split: option.splits)

lemma overwriting_process_challenge:
  "overwriting (snd (process_challenge r out api c (k, links)))"
proof (cases "ch_id c")
  case None
  then show ?thesis
    by (simp add: process_challenge_no_id overwriting_Cons2 overwriting_simple)
next
  case (Some i)
  show ?thesis
  proof (cases "challenge_response r i = Not_An_Object")
    case True
    with Some show ?thesis
      by (simp add: process_challenge_not_an_object overwriting_Cons2 overwriting_simple)
  next
    case False
    show ?thesis
      unfolding process_challenge_answered [OF Some False] snd_conv
      by (intro overwriting_append overwriting_Cons2 overwriting_simple overwriting_save
          overwriting_fetch_challenge_details overwriting_download_files)
  qed
qed

lemma snd_bind_io:
  "snd (bind_io m f) = snd m @ (case fst m of Inl e \<Rightarrow> [] | Inr x \<Rightarrow> snd (f x))"
  by (cases m) (auto simp: bind_io_def split: sum.splits prod.splits)

lemma overwriting_bind_io:
  "overwriting (snd m) \<Longrightarrow> (\<And>x. overwriting (snd (f x))) \<Longrightarrow> overwriting (snd (bind_io m f))"
  by (cases "fst m") (simp_all add: snd_bind_io overwriting_append)

lemma overwriting_process_challenges:
  "overwriting (snd (process_challenges r out api cs st))"
proof (induction cs arbitrary: st)
  case Nil
  show ?case by (simp add: return_io_def overwriting_Nil)
next
  case (Cons c cs)
  obtain k links where st: "st = (k, links)" by (cases st)
  show ?case
    by (simp add: st) (intro overwriting_bind_io overwriting_process_challenge Cons.IH)
qed

lemma run_write_strs:
  "fs p = Some (Text t) \<Longrightarrow>
   run_effects (map (\<lambda>c. Write_str p (g c)) cs) fs = fs(p \<mapsto> Text (t @ concat (map g cs)))"
proof (induction cs arbitrary: fs t)
  case Nil
  then show ?case by (simp add: run_effects_Nil map_upd_triv)
next
  case (Cons c cs)
  have "run_effects (map (\<lambda>c. Write_str p (g c)) cs) (fs(p \<mapsto> Text (t @ g c))) =
        (fs(p \<mapsto> Text (t @ g c)))(p \<mapsto> Text ((t @ g c) @ concat (map g cs)))"
    by (rule Cons.IH) simp
  with Cons.prems show ?case
    by (simp add: run_effects_Cons)
qed

lemma run_write_readme:
  "run_effects (write_readme out name cs) fs =
     fs(os_path_join out [u ''README.md''] \<mapsto>
        Text (u ''# '' @ name @ [10, 10] @ u ''## Challenges'' @ [10, 10]
              @ concat (map readme_entry cs)))"
proof -
  let ?p = "os_path_join out [u ''README.md'']"
  let ?h = "u ''# '' @ name @ [10, 10] @ u ''## Challenges'' @ [10, 10]"
  have "run_effects (map (\<lambda>c. Write_str ?p (readme_entry c)) cs) (fs(?p \<mapsto> Text ?h)) =
        (fs(?p \<mapsto> Text ?h))(?p \<mapsto> Text (?h @ concat (map readme_entry cs)))"
    by (rule run_write_strs) simp
  then show ?thesis
    by (simp add: write_readme_def Let_def run_effects_Cons)
qed

lemma overwriting_write_readme: "overwriting (write_readme out name cs)"
  by (rule overwriting_update) (rule run_write_readme)

lemma overwriting_emit: "overwriting es \<Longrightarrow> overwriting (snd (emit es))"
  by (simp add: emit_def)

lemma overwriting_organize_challenges:
  "overwriting (snd (organize_challenges r cs out api upd name))"
  unfolding organize_challenges_def
  by (intro overwriting_bind_io overwriting_process_challenges)
     (auto simp: return_io_def overwriting_Nil overwriting_simple
       intro!: overwriting_bind_io overwriting_emit overwriting_write_readme)

lemma overwriting_fetch_challenges: "overwriting (snd (fetch_challenges r))"
  by (cases "challenges_response r")
     (simp_all add: fetch_challenges_def overwriting_Nil overwriting_simple)

lemma overwriting_main: "overwriting (snd (main r args))"
  unfolding main_def Let_def
  by (intro overwriting_bind_io overwriting_emit overwriting_fetch_challenges
      overwriting_organize_challenges)
     (simp_all add: create_directory_structure_def overwriting_Cons2 overwriting_simple)

text \<open>
  C6. The program never reads the file system, so a second run against the same remote
  state makes the same effects as the first; every file a run writes is opened for
  writing (created or truncated) before it is written, so its final content does not
  depend on what was there. Hence running the pipeline with update mode disabled on the
  file system left by a first such run leaves every file, the metadata files among them,
  with the content the first run gave it.
\<close>

theorem rerun_writes_identical_files:
  "run_effects (snd (main r (args\<lparr>arg_update := False\<rparr>)))
     (run_effects (snd (main r (args\<lparr>arg_update := False\<rparr>))) fs) =
   run_effects (snd (main r (args\<lparr>arg_update := False\<rparr>))) fs"
proof -
  let ?T = "snd (main r (args\<lparr>arg_update := False\<rparr>))"
  have o: "overwriting ?T" by (rule overwriting_main)
  have "run_effects ?T (run_effects ?T fs) = run_effects ?T fs ++ run_effects ?T Map.empty"
    by (rule overwritingD [OF o])
  also have "\<dots> = (fs ++ run_effects ?T Map.empty) ++ run_effects ?T Map.empty"
    by (subst overwritingD [OF o, of fs]) (rule refl)
  also have "\<dots> = fs ++ run_effects ?T Map.empty"
    by (rule ext) (simp add: map_add_def split: option.splits)
  also have "\<dots> = run_effects ?T fs"
    by (rule overwritingD [OF o, symmetric])
  finally show ?thesis .
qed

section \<open>Degraded runs\<close>

lemma slug_intro: "slugify (u ''Intro'') = SLUG_MARKER @ u ''intro''"
  and slug_intro2: "slugify (u ''intro!'') = SLUG_MARKER @ u ''intro''"
  and slug_foo: "slugify (u ''Foo'') = SLUG_MARKER @ u ''foo''"
  by (simp_all add: slugify_def u_def str_lower_def lower_cp_def is_space_def is_slug_char_def
      str_strip_def)

lemma path_base_out: "path_base (u ''out'') = u ''out/''"
  by (simp add: path_base_def u_def)

lemma main_answered:
  assumes "challenges_response r = Envelope (Some cs)" and "\<forall>c \<in> set cs. answered r c"
  shows "fst (main r args) = Inr ()
   \<and> opened_w (snd (main r args)) =
       map (\<lambda>c. metadata_path (arg_output args) (challenge_data r c)) cs
       @ [os_path_join (arg_output args) [u ''README.md'']]
   \<and> strings_written (os_path_join (arg_output args) [u ''README.md'']) (snd (main r args)) =
       (u ''# '' @ arg_name args @ [10, 10] @ u ''## Challenges'' @ [10, 10])
       # map readme_entry cs
   \<and> printed (snd (main r args)) =
       (if concat (map (\<lambda>c. re_findall_links
              (dict_get (ch_description (challenge_data r c)) [])) cs) \<noteq> []
        then [External_links_found] else [])
       @ [Download_completed]"
  using main_envelope [OF assms(1), of args]
    organize_challenges_answered [OF assms(2), of "arg_output args"
      "urljoin r (arg_url args) (u ''/api/v1'')" "arg_update args" "arg_name args"]
    observations_create_directory_structure [of "arg_output args"]
  by (simp add: dict_get_def opened_w_append printed_append strings_written_append
      opened_w_Nil opened_w_Cons printed_Nil printed_Cons strings_written_Nil
      strings_written_Cons)

lemma fetch_failure_absent:
  "challenge_response r i = Malformed \<or> challenge_response r i = Envelope None \<Longrightarrow>
   fst (fetch_challenge_details r i) = Inr None"
  by (auto simp: fetch_challenge_details_def)

lemma challenge_data_fallback:
  "ch_id c = Some i \<Longrightarrow>
   challenge_response r i = Malformed \<or> challenge_response r i = Envelope None \<Longrightarrow>
   challenge_data r c = c"
  by (simp add: challenge_data_def fetch_failure_absent or_challenge_def)

lemma distinct_map_inj: "inj g \<Longrightarrow> distinct (map g xs) = distinct xs"
  by (induction xs) (auto dest: injD)

lemma distinct_metadata_paths:
  "distinct (map (\<lambda>c. metadata_path out (f c)) cs) \<longleftrightarrow>
   distinct (map (\<lambda>c. slugify (dict_get (ch_name (f c)) (u ''Unnamed Challenge''))) cs)"
proof -
  let ?g = "\<lambda>s. path_base out @ CHALLENGES_FOLDER @ [47] @ s @ u ''.md''"
  let ?s = "\<lambda>c. slugify (dict_get (ch_name (f c)) (u ''Unnamed Challenge''))"
  have "inj ?g" by (rule injI) simp
  then have "distinct (map ?g (map ?s cs)) = distinct (map ?s cs)"
    by (rule distinct_map_inj)
  moreover have "map (\<lambda>c. metadata_path out (f c)) cs = map ?g (map ?s cs)"
    by (simp add: metadata_path_eq)
  ultimately show ?thesis by (simp only:)
qed


lemma degraded_facts:
  "challenges_response degraded_remote = Envelope (Some [example_summary, intro_second])"
  "\<forall>c \<in> set [example_summary, intro_second]. answered degraded_remote c"
  "challenge_response degraded_remote 2 = Malformed"
  "challenge_data degraded_remote example_summary = example_detail"
  by (simp_all add: degraded_remote_def answered_def example_summary_def intro_second_def
      challenge_data_def fetch_challenge_details_def or_challenge_def truthy_def
      example_detail_def)


lemma colliding_facts:
  "challenges_response colliding_remote = Envelope (Some [intro_first, intro_second])"
  "\<forall>c \<in> set [intro_first, intro_second]. answered colliding_remote c"
  "challenge_response colliding_remote 1 = Malformed"
  "challenge_response colliding_remote 2 = Malformed"
  "challenge_data colliding_remote intro_first = intro_first"
  "challenge_data colliding_remote intro_second = intro_second"
  by (simp_all add: colliding_remote_def answered_def intro_first_def intro_second_def
      challenge_data_def fetch_challenge_details_def or_challenge_def)


section \<open>The index links and the challenge-list envelope\<close>

lemma set_slugify:
  "set (slugify text) \<subseteq> {128306, 32} \<union> {c. is_slug_char c}"
proof -
  have "set (str_strip [45] s) \<subseteq> set s" for s
    unfolding str_strip_def
    by (metis set_dropWhileD set_rev subsetI)
  then have "set (str_strip [45] (filter is_slug_char s)) \<subseteq> {c. is_slug_char c}" for s
    by fastforce
  then show ?thesis
    by (auto simp: slugify_def SLUG_MARKER_def u_dash re_sub_char_delete)
qed

lemma underscore_not_in_slug: "95 \<notin> set (slugify text @ u ''.md'')"
proof -
  have "\<not> is_slug_char 95" by (simp add: is_slug_char_def)
  with set_slugify [of "text"] have "95 \<notin> set (slugify text)" by auto
  then show ?thesis by (simp add: u_def)
qed

lemma readme_link_path:
  "os_path_join out [readme_link c] = path_base out @ readme_link c"
  by (simp add: os_path_join.simps readme_link_def Let_def CHALLENGES_FOLDER_def u_def
      path_base_def)

lemma metadata_path_join:
  "metadata_path out d =
     os_path_join out
       [CHALLENGES_FOLDER, slugify (dict_get (ch_name d) (u ''Unnamed Challenge'')) @ u ''.md'']"
  by (simp add: metadata_path_eq os_path_join.simps path_base_def slugify_def SLUG_MARKER_def
      CHALLENGES_FOLDER_def u_def)

lemma metadata_path_not_linked:
  "metadata_path out d \<noteq> os_path_join out [readme_link c]"
proof
  assume "metadata_path out d = os_path_join out [readme_link c]"
  then have "slugify (dict_get (ch_name d) (u ''Unnamed Challenge'')) @ u ''.md'' =
      dict_get (ch_category c) (u ''Uncategorized'') @ u ''_''
      @ slugify (dict_get (ch_name c) (u ''Unnamed Challenge'')) @ u ''.md''"
    by (simp only: metadata_path_eq readme_link_path)
       (simp add: readme_link_def Let_def u_def)
  moreover have "95 \<in> set (dict_get (ch_category c) (u ''Uncategorized'') @ u ''_''
      @ slugify (dict_get (ch_name c) (u ''Unnamed Challenge'')) @ u ''.md'')"
    by (simp add: u_def)
  ultimately show False
    using underscore_not_in_slug [of "dict_get (ch_name d) (u ''Unnamed Challenge'')"]
    by simp
qed

lemma example_facts:
  "challenges_response example_remote = Envelope (Some [example_summary])"
  "\<forall>c \<in> set [example_summary]. answered example_remote c"
  by (simp add: example_remote_def) (simp add: example_answered)

text \<open>
  C1 does not hold of the code. \<^verbatim>\<open>save_challenge_metadata\<close> names the file by the slug
  alone (the path with the category, \<^verbatim>\<open>challenge_file_path\<close>, is computed and not used),
  while the entry of the index links to the category, an underscore and the slug. A slug
  has no underscore, so for every output directory, every record saved and every summary
  listed, the file written is not the file the entry points to. On the example platform
  the run writes \<^verbatim>\<open>out/<folder>/<marker>foo.md\<close> and the index entry points to
  \<^verbatim>\<open><folder>/web_<marker>foo.md\<close>.
\<close>

theorem index_links_miss_metadata_files:
  "metadata_path out d =
     os_path_join out
       [CHALLENGES_FOLDER, slugify (dict_get (ch_name d) (u ''Unnamed Challenge'')) @ u ''.md'']
   \<and> metadata_path out d \<noteq> os_path_join out [readme_link c]
   \<and> opened_w (snd (main example_remote example_arguments)) =
       [u ''out/'' @ CHALLENGES_FOLDER @ u ''/'' @ SLUG_MARKER @ u ''foo.md'',
        u ''out/README.md'']
   \<and> strings_written (u ''out/README.md'') (snd (main example_remote example_arguments)) =
       [u ''# Demo'' @ [10, 10] @ u ''## Challenges'' @ [10, 10],
        u ''* [Foo](<'' @ CHALLENGES_FOLDER @ u ''/web_'' @ SLUG_MARKER @ u ''foo.md>)''
        @ [10]]"
proof -
  note m = main_answered [OF example_facts, of example_arguments]
  have o: "arg_output example_arguments = u ''out''"
    and n: "arg_name example_arguments = u ''Demo''"
    by (simp_all add: example_arguments_def)
  have r: "os_path_join (u ''out'') [u ''README.md''] = u ''out/README.md''"
    by (simp add: readme_path path_base_out) (simp add: u_def)
  have p: "metadata_path (u ''out'') example_detail =
      u ''out/'' @ CHALLENGES_FOLDER @ u ''/'' @ SLUG_MARKER @ u ''foo.md''"
    by (simp add: metadata_path_eq path_base_out example_detail_def dict_get_def slug_foo)
       (simp add: u_def)
  have e: "readme_entry example_summary =
      u ''* [Foo](<'' @ CHALLENGES_FOLDER @ u ''/web_'' @ SLUG_MARKER @ u ''foo.md>)'' @ [10]"
    by (simp add: readme_entry_def readme_link_def Let_def example_summary_def dict_get_def
        slug_foo) (simp add: u_def)
  from m have 3: "opened_w (snd (main example_remote example_arguments)) =
       [u ''out/'' @ CHALLENGES_FOLDER @ u ''/'' @ SLUG_MARKER @ u ''foo.md'',
        u ''out/README.md'']"
    by (simp add: o r example_challenge_data p)
  from m have 4: "strings_written (u ''out/README.md'')
       (snd (main example_remote example_arguments)) =
       [u ''# Demo'' @ [10, 10] @ u ''## Challenges'' @ [10, 10],
        u ''* [Foo](<'' @ CHALLENGES_FOLDER @ u ''/web_'' @ SLUG_MARKER @ u ''foo.md>)''
        @ [10]]"
    by (simp add: o n r e) (simp add: u_def)
  from metadata_path_join [of out d] metadata_path_not_linked [of out d c] 3 4
  show ?thesis by blast
qed

lemma main_malformed:
  "challenges_response r = Malformed \<Longrightarrow>
   main r args =
     (Inl (SystemExit 1),
      create_directory_structure (arg_output args)
      @ [Logger_error Failed_to_retrieve_challenges])"
  by (simp add: main_def Let_def fetch_challenges_def bind_io_emit bind_io_Inl)

lemma main_envelope_none:
  assumes "challenges_response r = Envelope None"
  shows "fst (main r args) = Inr ()
   \<and> opened_w (snd (main r args)) = [os_path_join (arg_output args) [u ''README.md'']]
   \<and> printed (snd (main r args)) = [Download_completed]"
proof -
  have a: "\<forall>c \<in> set []. answered r c" by simp
  show ?thesis
    using main_envelope [OF assms, of args]
      organize_challenges_answered [OF a, of "arg_output args"
        "urljoin r (arg_url args) (u ''/api/v1'')" "arg_update args" "arg_name args"]
      observations_create_directory_structure [of "arg_output args"]
    by (simp add: dict_get_def opened_w_append printed_append opened_w_Nil opened_w_Cons
        printed_Nil printed_Cons)
qed

text \<open>
  C2 holds of the code for malformed JSON only. A challenge-list body that is not JSON ends
  the run with \<^verbatim>\<open>sys.exit(1)\<close> before any file is opened. A body that is a JSON object
  without the \<^verbatim>\<open>data\<close> member does not: \<^verbatim>\<open>.get("data", [])\<close> returns the empty list (the
  \<^verbatim>\<open>KeyError\<close> the handler names is never raised), and the run goes on to write an index
  without entries, prints the closing line and has exit status 0.
\<close>

theorem missing_data_field_is_not_fatal:
  "(challenges_response r = Malformed \<longrightarrow>
      fst (main r args) = Inl (SystemExit 1)
      \<and> exit_status (fst (main r args)) = 1
      \<and> opened_w (snd (main r args)) = []
      \<and> opened_wb (snd (main r args)) = [])
   \<and> (challenges_response r = Envelope None \<longrightarrow>
      fetch_challenges r = (Inr [], [])
      \<and> fst (main r args) = Inr ()
      \<and> exit_status (fst (main r args)) = 0
      \<and> opened_w (snd (main r args)) = [os_path_join (arg_output args) [u ''README.md'']]
      \<and> printed (snd (main r args)) = [Download_completed])"
proof -
  have 1: "fst (main r args) = Inl (SystemExit 1)
      \<and> exit_status (fst (main r args)) = 1
      \<and> opened_w (snd (main r args)) = []
      \<and> opened_wb (snd (main r args)) = []"
    if "challenges_response r = Malformed"
    by (simp add: main_malformed [OF that] exit_status_def create_directory_structure_def
        opened_w_def opened_wb_def)
  have 2: "fetch_challenges r = (Inr [], [])
      \<and> fst (main r args) = Inr ()
      \<and> exit_status (fst (main r args)) = 0
      \<and> opened_w (snd (main r args)) = [os_path_join (arg_output args) [u ''README.md'']]
      \<and> printed (snd (main r args)) = [Download_completed]"
    if e: "challenges_response r = Envelope None"
    using main_envelope_none [OF e, of args] fetch_challenges_envelope [OF e]
    by (simp add: exit_status_def dict_get_def)
  from 1 2 show ?thesis by blast
qed

theorem missing_data_field_is_not_fatal_witness:
  "exit_status (fst (main (example_remote\<lparr>challenges_response := Malformed\<rparr>)
                      example_arguments)) = 1
   \<and> opened_w (snd (main (example_remote\<lparr>challenges_response := Malformed\<rparr>)
                      example_arguments)) = []
   \<and> exit_status (fst (main (example_remote\<lparr>challenges_response := Envelope None\<rparr>)
                      example_arguments)) = 0
   \<and> printed (snd (main (example_remote\<lparr>challenges_response := Envelope None\<rparr>)
                      example_arguments)) = [Download_completed]"
  using missing_data_field_is_not_fatal
      [of "example_remote\<lparr>challenges_response := Malformed\<rparr>" example_arguments]
    missing_data_field_is_not_fatal
      [of "example_remote\<lparr>challenges_response := Envelope None\<rparr>" example_arguments]
  by (simp add: exit_status_def)

end
